theory Spec2Isabelle
  imports
    Main
    "HOL-Library.Char_ord"
    "HOL-Library.List_Lexorder"
    "HOL-Library.Option_ord"
    "HOL-Library.Multiset"
    "HOL-Library.Word"
begin

section \<open>Drift scorer (drift_detector.py)\<close>

text \<open>
  The detector object of \<^verbatim>\<open>ArchitectureDriftDetector\<close>: the dictionary
  \<^verbatim>\<open>self.changes\<close> with its six lists, \<^verbatim>\<open>self.drift_score\<close> and
  \<^verbatim>\<open>self.severity\<close>. Python integers are unbounded, so the score is an \<open>int\<close>.
  A service read from a document is a string or Python's \<^verbatim>\<open>None\<close>, hence
  \<open>string option\<close>; dependency and endpoint changes are formatted strings.
\<close>

record changes =
  services_added :: "string option list"
  services_removed :: "string option list"
  dependencies_added :: "string list"
  dependencies_removed :: "string list"
  endpoints_added :: "string list"
  endpoints_removed :: "string list"

datatype severity = NO_CHANGE | LOW | MEDIUM | HIGH | CRITICAL

record detector =
  changes :: changes
  drift_score :: int
  severity :: severity

text \<open>The weighted sum accumulated in \<^verbatim>\<open>score\<close>, line by line.\<close>

definition weighted_score :: "changes \<Rightarrow> int" where
  "weighted_score c =
     0 + int (length (services_added c)) * 15
       + int (length (services_removed c)) * 20
       + int (length (dependencies_added c)) * 7
       + int (length (dependencies_removed c)) * 10
       + int (length (endpoints_added c)) * 3
       + int (length (endpoints_removed c)) * 5"

text \<open>The \<^verbatim>\<open>if/elif\<close> chain on \<^verbatim>\<open>self.drift_score\<close>.\<close>

definition severity_of :: "int \<Rightarrow> severity" where
  "severity_of s =
     (if s = 0 then NO_CHANGE
      else if s < 20 then LOW
      else if s < 50 then MEDIUM
      else if s < 80 then HIGH
      else CRITICAL)"

definition calculate_drift_score :: "detector \<Rightarrow> detector" where
  "calculate_drift_score d =
     (let score = weighted_score (changes d);
          d1 = d\<lparr>drift_score := min score 100\<rparr>
      in d1\<lparr>severity := severity_of (drift_score d1)\<rparr>)"

text \<open>The position of a tier in the scale NO_CHANGE, LOW, MEDIUM, HIGH, CRITICAL.\<close>

fun severity_rank :: "severity \<Rightarrow> nat" where
  "severity_rank NO_CHANGE = 0"
| "severity_rank LOW = 1"
| "severity_rank MEDIUM = 2"
| "severity_rank HIGH = 3"
| "severity_rank CRITICAL = 4"


section \<open>Trace analysis (architecture_tracer.py)\<close>

text \<open>
  A log entry is a dictionary read with \<^verbatim>\<open>entry.get(...)\<close>: a missing key and a JSON
  null both give \<^verbatim>\<open>None\<close>. A Python string is a list of characters with code points
  below 256.
\<close>

record event =
  service :: "string option"
  endpoint :: "string option"
  timestamp :: "string option"

text \<open>Python's truth test on such a value: \<^verbatim>\<open>None\<close> and the empty string are false.\<close>

definition truthy :: "string option \<Rightarrow> bool" where
  "truthy v = (case v of None \<Rightarrow> False | Some s \<Rightarrow> s \<noteq> [])"

record endpoint_use =
  used_service :: "string option"
  used_endpoint :: string
  used_timestamp :: "string option"

record journey =
  correlation_id :: string
  journey_services :: "string option list"
  journey_endpoints :: "endpoint_use list"
  start_service :: "string option"
  end_service :: "string option"
  service_count :: nat
  journey_name :: "string option"

text \<open>
  The tracer object. A Python \<^verbatim>\<open>set\<close> is a duplicate-free list (the order of the list
  stands for the unspecified iteration order of the set); a \<^verbatim>\<open>defaultdict(set)\<close> is an
  association list in insertion order, as Python dictionaries are. The attributes
  \<^verbatim>\<open>service_dependencies\<close>, \<^verbatim>\<open>service_endpoints\<close> and \<^verbatim>\<open>user_journeys\<close> carry the
  prefix \<open>self_\<close> here, since the snapshot document has keys of the same names.
\<close>

record tracer =
  self_service_dependencies :: "(string option \<times> string option list) list"
  self_service_endpoints :: "(string option \<times> string list) list"
  self_user_journeys :: "journey list"
  all_services :: "string option list"

definition init_tracer :: tracer where
  "init_tracer =
     \<lparr>self_service_dependencies = [], self_service_endpoints = [],
      self_user_journeys = [], all_services = []\<rparr>"

text \<open>\<^verbatim>\<open>s.add(x)\<close> on a set.\<close>

definition set_add :: "'a \<Rightarrow> 'a list \<Rightarrow> 'a list" where
  "set_add x xs = (if x \<in> set xs then xs else xs @ [x])"

text \<open>\<^verbatim>\<open>d[k].add(v)\<close> on a \<^verbatim>\<open>defaultdict(set)\<close>: a missing key is created.\<close>

fun dict_add :: "'k \<Rightarrow> 'v \<Rightarrow> ('k \<times> 'v list) list \<Rightarrow> ('k \<times> 'v list) list" where
  "dict_add k v [] = [(k, [v])]"
| "dict_add k v ((k', vs) # d) =
     (if k' = k then (k', set_add v vs) # d else (k', vs) # dict_add k v d)"

text \<open>The three blocks of the loop body of \<^verbatim>\<open>analyze_trace\<close>, on the tracer.\<close>

definition discover_service ::
  "string option \<Rightarrow> string option list \<Rightarrow> tracer \<Rightarrow> tracer" where
  "discover_service svc services_in_order self =
     (if truthy svc \<and> svc \<notin> set services_in_order
      then self\<lparr>all_services := set_add svc (all_services self)\<rparr> else self)"

definition discover_endpoint :: "string option \<Rightarrow> string option \<Rightarrow> tracer \<Rightarrow> tracer" where
  "discover_endpoint svc ep self =
     (case ep of
        None \<Rightarrow> self
      | Some e \<Rightarrow>
          if e \<noteq> []
          then self\<lparr>self_service_endpoints := dict_add svc e (self_service_endpoints self)\<rparr>
          else self)"

definition infer_dependency :: "string option \<Rightarrow> string option \<Rightarrow> tracer \<Rightarrow> tracer" where
  "infer_dependency previous_service svc self =
     (if truthy previous_service \<and> previous_service \<noteq> svc
      then self\<lparr>self_service_dependencies :=
                  dict_add previous_service svc (self_service_dependencies self)\<rparr>
      else self)"

text \<open>
  The loop \<^verbatim>\<open>for entry in trace\<close> with its local variables
  \<^verbatim>\<open>services_in_order\<close>, \<^verbatim>\<open>endpoints_used\<close> and \<^verbatim>\<open>previous_service\<close>.
\<close>

fun analyze_entries ::
  "event list \<Rightarrow> string option list \<Rightarrow> endpoint_use list \<Rightarrow> string option \<Rightarrow> tracer
     \<Rightarrow> string option list \<times> endpoint_use list \<times> tracer" where
  "analyze_entries [] services_in_order endpoints_used previous_service self =
     (services_in_order, endpoints_used, self)"
| "analyze_entries (entry # rest) services_in_order endpoints_used previous_service self =
     analyze_entries rest
       (if truthy (service entry) \<and> service entry \<notin> set services_in_order
        then services_in_order @ [service entry] else services_in_order)
       (case endpoint entry of
          None \<Rightarrow> endpoints_used
        | Some e \<Rightarrow>
            if e \<noteq> []
            then endpoints_used @
              [\<lparr>used_service = service entry, used_endpoint = e,
                used_timestamp = timestamp entry\<rparr>]
            else endpoints_used)
       (service entry)
       (infer_dependency previous_service (service entry)
          (discover_endpoint (service entry) (endpoint entry)
             (discover_service (service entry) services_in_order self)))"

text \<open>\<^verbatim>\<open>analyze_trace\<close> returns the empty dictionary for an empty trace (here \<open>None\<close>).\<close>

definition analyze_trace :: "string \<Rightarrow> event list \<Rightarrow> tracer \<Rightarrow> journey option \<times> tracer" where
  "analyze_trace cid trace self =
     (if trace = [] then (None, self)
      else
        (case analyze_entries trace [] [] None self of
           (services_in_order, endpoints_used, self') \<Rightarrow>
             (Some \<lparr>correlation_id = cid,
                    journey_services = services_in_order,
                    journey_endpoints = endpoints_used,
                    start_service =
                      (if services_in_order \<noteq> [] then hd services_in_order else None),
                    end_service =
                      (if services_in_order \<noteq> [] then last services_in_order else None),
                    service_count = length services_in_order,
                    journey_name = None\<rparr>,
              self')))"

text \<open>
  One round of the loop of \<^verbatim>\<open>process_all_correlation_ids\<close>. The trace store is outside
  the repository: \<open>fetch\<close> stands for \<^verbatim>\<open>fetch_trace_from_splunk\<close>, which returns the
  empty list on every failure.
\<close>

definition process_journey ::
  "(string \<Rightarrow> event list) \<Rightarrow> string \<times> string \<Rightarrow> tracer \<Rightarrow> tracer" where
  "process_journey fetch nc self =
     (case nc of (name, cid) \<Rightarrow>
        if fetch cid \<noteq> [] then
          (case analyze_trace cid (fetch cid) self of
             (None, self') \<Rightarrow> self'
           | (Some journey_data, self') \<Rightarrow>
               if journey_services journey_data \<noteq> []
               then self'\<lparr>self_user_journeys :=
                      self_user_journeys self' @ [journey_data\<lparr>journey_name := Some name\<rparr>]\<rparr>
               else self')
        else self)"

fun process_all_correlation_ids ::
  "(string \<Rightarrow> event list) \<Rightarrow> (string \<times> string) list \<Rightarrow> tracer \<Rightarrow> tracer" where
  "process_all_correlation_ids fetch [] self = self"
| "process_all_correlation_ids fetch (nc # rest) self =
     process_all_correlation_ids fetch rest (process_journey fetch nc self)"

text \<open>
  \<^verbatim>\<open>sorted\<close> on a list of strings and \<^verbatim>\<open>None\<close>: comparing \<^verbatim>\<open>None\<close> with
  anything raises \<^verbatim>\<open>TypeError\<close>, and sorting two or more elements compares each of them
  at least once. Strings compare lexicographically by code point.
\<close>

datatype py_error = TypeError | JSONDecodeError

definition py_sorted :: "string option list \<Rightarrow> py_error + string option list" where
  "py_sorted xs = (if None \<in> set xs \<and> 2 \<le> length xs then Inl TypeError else Inr (sort xs))"

record metrics =
  total_services :: nat
  total_dependencies :: nat
  total_endpoints :: nat
  total_journeys :: nat

record architecture =
  arch_timestamp :: string
  discovery_method :: string
  arch_total_services :: nat
  services :: "string option list"
  service_dependencies :: "(string option \<times> string option list) list"
  service_endpoints :: "(string option \<times> string list) list"
  user_journeys :: "journey list"
  metrics :: metrics

text \<open>\<open>now\<close> is the value of \<^verbatim>\<open>datetime.utcnow().isoformat()\<close>.\<close>

definition build_architecture_map :: "string \<Rightarrow> tracer \<Rightarrow> py_error + architecture" where
  "build_architecture_map now self =
     (case py_sorted (all_services self) of
        Inl e \<Rightarrow> Inl e
      | Inr sorted_services \<Rightarrow>
          Inr \<lparr>arch_timestamp = now,
               discovery_method = ''llm_powered_tracing'',
               arch_total_services = length (all_services self),
               services = sorted_services,
               service_dependencies = self_service_dependencies self,
               service_endpoints = self_service_endpoints self,
               user_journeys = self_user_journeys self,
               metrics =
                 \<lparr>total_services = length (all_services self),
                  total_dependencies =
                    sum_list (map (\<lambda>kv. length (snd kv)) (self_service_dependencies self)),
                  total_endpoints =
                    sum_list (map (\<lambda>kv. length (snd kv)) (self_service_endpoints self)),
                  total_journeys = length (self_user_journeys self)\<rparr>\<rparr>)"

text \<open>
  The discovery run of \<^verbatim>\<open>main\<close>: a fresh tracer, all journeys, then the map, which
  is the dictionary that \<^verbatim>\<open>calculate_architecture_hash\<close> takes.
\<close>

definition discover ::
  "string \<Rightarrow> (string \<Rightarrow> event list) \<Rightarrow> (string \<times> string) list \<Rightarrow> py_error + architecture" where
  "discover now fetch correlation_ids =
     build_architecture_map now (process_all_correlation_ids fetch correlation_ids init_tracer)"

subsection \<open>What a dictionary of sets holds\<close>

definition dict_rel :: "('k \<times> 'v list) list \<Rightarrow> ('k \<times> 'v) set" where
  "dict_rel d = set (concat (map (\<lambda>kv. map (Pair (fst kv)) (snd kv)) d))"

text \<open>The pairs of neighbouring elements of a list.\<close>

definition consecutive :: "'a list \<Rightarrow> ('a \<times> 'a) list" where
  "consecutive xs = zip xs (tl xs)"

text \<open>
  In the words of the specification: the pairs (previous_service, current_service) of
  consecutive events of one trace whose services differ, where previous_service passes
  the truth test.
\<close>

definition adjacent_edges :: "event list \<Rightarrow> (string option \<times> string option) list" where
  "adjacent_edges t =
     filter (\<lambda>pc. truthy (fst pc) \<and> fst pc \<noteq> snd pc) (consecutive (map service t))"

text \<open>
  The closure property of a snapshot: every dependency source, dependency target and
  endpoint owner is a member of \<open>services\<close>.
\<close>

definition closure :: "architecture \<Rightarrow> bool" where
  "closure a =
     ((\<forall>kv \<in> set (service_dependencies a).
         fst kv \<in> set (services a) \<and> set (snd kv) \<subseteq> set (services a))
      \<and> (\<forall>kv \<in> set (service_endpoints a). fst kv \<in> set (services a)))"

text \<open>What one trace contributes, as sets: the edges between neighbouring entries (with the
  service of the entry before the first one given), the endpoints and the services.\<close>

definition trace_edges ::
  "string option \<Rightarrow> event list \<Rightarrow> (string option \<times> string option) set" where
  "trace_edges prev t =
     set (filter (\<lambda>pc. truthy (fst pc) \<and> fst pc \<noteq> snd pc)
            (consecutive (prev # map service t)))"

definition trace_endpoints :: "event list \<Rightarrow> (string option \<times> string) set" where
  "trace_endpoints t =
     set (concat (map (\<lambda>e. case endpoint e of
                              None \<Rightarrow> []
                            | Some ep \<Rightarrow> if ep \<noteq> [] then [(service e, ep)] else []) t))"

definition trace_services :: "event list \<Rightarrow> string option set" where
  "trace_services t = set (filter truthy (map service t))"

text \<open>Representation invariants of the tracer: dictionaries have unique keys, sets have
  no duplicates, and a key of a \<^verbatim>\<open>defaultdict\<close> is only created by adding to it.\<close>

definition wf_values :: "('k \<times> 'v list) list \<Rightarrow> bool" where
  "wf_values d = (\<forall>kv \<in> set d. distinct (snd kv) \<and> snd kv \<noteq> [])"

definition wf_tracer :: "tracer \<Rightarrow> bool" where
  "wf_tracer self =
     (distinct (map fst (self_service_dependencies self))
      \<and> wf_values (self_service_dependencies self)
      \<and> distinct (map fst (self_service_endpoints self))
      \<and> wf_values (self_service_endpoints self)
      \<and> distinct (all_services self))"

section \<open>Fingerprint (advanced_drift_tracker.py)\<close>

subsection \<open>The library functions it calls\<close>

text \<open>
  \<^verbatim>\<open>json.dumps\<close> with its defaults (\<^verbatim>\<open>ensure_ascii\<close>, separators \<^verbatim>\<open>", "\<close> and
  \<^verbatim>\<open>": "\<close>): a string is quoted, the quote and the backslash are escaped, the control
  characters have their short or \<^verbatim>\<open>\u00xx\<close> escapes, and every character outside
  the range from space to tilde is written \<^verbatim>\<open>\u00xx\<close>.
\<close>

definition hex_digit :: "nat \<Rightarrow> char" where
  "hex_digit n = ''0123456789abcdef'' ! (n mod 16)"

definition json_escape :: "char \<Rightarrow> string" where
  "json_escape c =
     (if c = CHR 0x22 then [CHR 0x5C, CHR 0x22]
      else if c = CHR 0x5C then [CHR 0x5C, CHR 0x5C]
      else if c = CHR 0x0A then [CHR 0x5C, CHR ''n'']
      else if c = CHR 0x0D then [CHR 0x5C, CHR ''r'']
      else if c = CHR 0x09 then [CHR 0x5C, CHR ''t'']
      else if c = CHR 0x08 then [CHR 0x5C, CHR ''b'']
      else if c = CHR 0x0C then [CHR 0x5C, CHR ''f'']
      else if (0x20 :: nat) \<le> of_char c \<and> of_char c \<le> (0x7E :: nat) then [c]
      else [CHR 0x5C, CHR ''u'', CHR ''0'', CHR ''0'',
            hex_digit (of_char c div 16), hex_digit (of_char c)])"

definition json_string :: "string \<Rightarrow> string" where
  "json_string s = [CHR 0x22] @ concat (map json_escape s) @ [CHR 0x22]"

text \<open>\<^verbatim>\<open>sep.join(parts)\<close>.\<close>

fun join :: "string \<Rightarrow> string list \<Rightarrow> string" where
  "join sep [] = []"
| "join sep [x] = x"
| "join sep (x # y # ys) = x @ sep @ join sep (y # ys)"

text \<open>A list and a dictionary whose elements are already encoded.\<close>

definition json_array :: "string list \<Rightarrow> string" where
  "json_array xs = ''['' @ join '', '' xs @ '']''"

definition json_object :: "(string \<times> string) list \<Rightarrow> string" where
  "json_object kvs = ''{'' @ join '', '' (map (\<lambda>kv. json_string (fst kv) @ '': '' @ snd kv) kvs) @ ''}''"

text \<open>\<^verbatim>\<open>None\<close> is written \<^verbatim>\<open>null\<close> as a value and \<^verbatim>\<open>"null"\<close> as a key.\<close>

definition json_service :: "string option \<Rightarrow> string" where
  "json_service v = (case v of None \<Rightarrow> ''null'' | Some s \<Rightarrow> json_string s)"

definition key_string :: "string option \<Rightarrow> string" where
  "key_string k = (case k of None \<Rightarrow> ''null'' | Some s \<Rightarrow> s)"

text \<open>
  \<^verbatim>\<open>sort_keys=True\<close> sorts the items of a dictionary by key before the keys are
  converted, so a dictionary with the key \<^verbatim>\<open>None\<close> and another key raises
  \<^verbatim>\<open>TypeError\<close>.
\<close>

definition sort_keys :: "(string option \<times> 'v) list \<Rightarrow> py_error + (string option \<times> 'v) list" where
  "sort_keys d =
     (if None \<in> fst ` set d \<and> 2 \<le> length d then Inl TypeError else Inr (sort_key fst d))"

text \<open>
  \<^verbatim>\<open>hashlib.md5(data).hexdigest()\<close>, the MD5 message digest of RFC 1321, on the
  bytes of a string (\<^verbatim>\<open>json.dumps\<close> gives ASCII only, so \<^verbatim>\<open>encode()\<close> gives one
  byte for each character).
\<close>

unbundle bit_operations_syntax

definition md5_K :: "32 word list" where
  "md5_K =
    [0xd76aa478, 0xe8c7b756, 0x242070db, 0xc1bdceee, 0xf57c0faf, 0x4787c62a, 0xa8304613, 0xfd469501,
     0x698098d8, 0x8b44f7af, 0xffff5bb1, 0x895cd7be, 0x6b901122, 0xfd987193, 0xa679438e, 0x49b40821,
     0xf61e2562, 0xc040b340, 0x265e5a51, 0xe9b6c7aa, 0xd62f105d, 0x02441453, 0xd8a1e681, 0xe7d3fbc8,
     0x21e1cde6, 0xc33707d6, 0xf4d50d87, 0x455a14ed, 0xa9e3e905, 0xfcefa3f8, 0x676f02d9, 0x8d2a4c8a,
     0xfffa3942, 0x8771f681, 0x6d9d6122, 0xfde5380c, 0xa4beea44, 0x4bdecfa9, 0xf6bb4b60, 0xbebfbc70,
     0x289b7ec6, 0xeaa127fa, 0xd4ef3085, 0x04881d05, 0xd9d4d039, 0xe6db99e5, 0x1fa27cf8, 0xc4ac5665,
     0xf4292244, 0x432aff97, 0xab9423a7, 0xfc93a039, 0x655b59c3, 0x8f0ccc92, 0xffeff47d, 0x85845dd1,
     0x6fa87e4f, 0xfe2ce6e0, 0xa3014314, 0x4e0811a1, 0xf7537e82, 0xbd3af235, 0x2ad7d2bb, 0xeb86d391]"

definition md5_shifts :: "nat list" where
  "md5_shifts =
    [7, 12, 17, 22, 7, 12, 17, 22, 7, 12, 17, 22, 7, 12, 17, 22,
     5, 9, 14, 20, 5, 9, 14, 20, 5, 9, 14, 20, 5, 9, 14, 20,
     4, 11, 16, 23, 4, 11, 16, 23, 4, 11, 16, 23, 4, 11, 16, 23,
     6, 10, 15, 21, 6, 10, 15, 21, 6, 10, 15, 21, 6, 10, 15, 21]"

definition rotl32 :: "32 word \<Rightarrow> nat \<Rightarrow> 32 word" where
  "rotl32 x n = push_bit n x OR drop_bit (32 - n) x"

type_synonym md5_state = "32 word \<times> 32 word \<times> 32 word \<times> 32 word"

fun md5_step :: "32 word list \<Rightarrow> nat \<Rightarrow> md5_state \<Rightarrow> md5_state" where
  "md5_step M i (A, B, C, D) =
     (let F = (if i < 16 then (B AND C) OR (NOT B AND D)
               else if i < 32 then (D AND B) OR (NOT D AND C)
               else if i < 48 then B XOR C XOR D
               else C XOR (B OR NOT D));
          g = (if i < 16 then i
               else if i < 32 then (5 * i + 1) mod 16
               else if i < 48 then (3 * i + 5) mod 16
               else (7 * i) mod 16);
          F' = F + A + md5_K ! i + M ! g
      in (D, B + rotl32 F' (md5_shifts ! i), B, C))"

fun md5_block :: "32 word list \<Rightarrow> md5_state \<Rightarrow> md5_state" where
  "md5_block M (a0, b0, c0, d0) =
     (case fold (md5_step M) [0..<64] (a0, b0, c0, d0) of
        (A, B, C, D) \<Rightarrow> (a0 + A, b0 + B, c0 + C, d0 + D))"

text \<open>Bytes to little-endian words and back.\<close>

fun le_words :: "8 word list \<Rightarrow> 32 word list" where
  "le_words (b0 # b1 # b2 # b3 # rest) =
     (ucast b0 OR push_bit 8 (ucast b1) OR push_bit 16 (ucast b2) OR push_bit 24 (ucast b3))
       # le_words rest"
| "le_words _ = []"

definition le_bytes :: "64 word \<Rightarrow> 8 word list" where
  "le_bytes v = map (\<lambda>i. ucast (drop_bit (8 * i) v)) [0..<8]"

definition word_bytes :: "32 word \<Rightarrow> 8 word list" where
  "word_bytes w = map (\<lambda>i. ucast (drop_bit (8 * i) w)) [0..<4]"

text \<open>Padding: the byte 0x80, zeros up to 56 modulo 64, the bit length in 64 bits.\<close>

definition md5_pad :: "8 word list \<Rightarrow> 8 word list" where
  "md5_pad bs =
     bs @ [0x80] @ replicate ((64 - (length bs + 9) mod 64) mod 64) 0
        @ le_bytes (of_nat (8 * length bs))"

fun md5_blocks :: "nat \<Rightarrow> 8 word list \<Rightarrow> md5_state \<Rightarrow> md5_state" where
  "md5_blocks 0 bs st = st"
| "md5_blocks (Suc n) bs st = md5_blocks n (drop 64 bs) (md5_block (le_words (take 64 bs)) st)"

definition hex_byte :: "8 word \<Rightarrow> string" where
  "hex_byte b = [hex_digit (unat b div 16), hex_digit (unat b)]"

definition md5 :: "string \<Rightarrow> string" where
  "md5 s =
     (let bs = md5_pad (map of_char s)
      in case md5_blocks (length bs div 64) bs (0x67452301, 0xefcdab89, 0x98badcfe, 0x10325476) of
           (a, b, c, d) \<Rightarrow> concat (map hex_byte (concat (map word_bytes [a, b, c, d]))))"

subsection \<open>calculate_architecture_hash\<close>

text \<open>
  The dictionary comprehension \<^verbatim>\<open>{k: sorted(v) for k, v in d.items()}\<close>; the first
  \<^verbatim>\<open>sorted\<close> that raises ends it.
\<close>

fun sorted_values ::
  "(string option \<times> string option list) list
     \<Rightarrow> py_error + (string option \<times> string option list) list" where
  "sorted_values [] = Inr []"
| "sorted_values (kv # rest) =
     (case py_sorted (snd kv) of
        Inl e \<Rightarrow> Inl e
      | Inr v \<Rightarrow>
          (case sorted_values rest of
             Inl e \<Rightarrow> Inl e
           | Inr rest' \<Rightarrow> Inr ((fst kv, v) # rest')))"

text \<open>
  \<^verbatim>\<open>arch_string\<close>, the stable string representation. An endpoint is a string, so
  sorting endpoint lists never raises.
\<close>

definition arch_string :: "architecture \<Rightarrow> py_error + string" where
  "arch_string a =
     (case py_sorted (services a) of
        Inl e \<Rightarrow> Inl e
      | Inr svcs \<Rightarrow>
     (case sorted_values (service_dependencies a) of
        Inl e \<Rightarrow> Inl e
      | Inr deps \<Rightarrow>
     (case sort_keys deps of
        Inl e \<Rightarrow> Inl e
      | Inr deps' \<Rightarrow>
     (case sort_keys (map (\<lambda>kv. (fst kv, sort (snd kv))) (service_endpoints a)) of
        Inl e \<Rightarrow> Inl e
      | Inr eps' \<Rightarrow>
          Inr (json_object
            [(''dependencies'',
                json_object (map (\<lambda>kv. (key_string (fst kv), json_array (map json_service (snd kv)))) deps')),
             (''endpoints'',
                json_object (map (\<lambda>kv. (key_string (fst kv), json_array (map json_string (snd kv)))) eps')),
             (''services'', json_array (map json_service svcs))])))))"

definition calculate_architecture_hash :: "architecture \<Rightarrow> py_error + string" where
  "calculate_architecture_hash a =
     (case arch_string a of Inl e \<Rightarrow> Inl e | Inr s \<Rightarrow> Inr (md5 s))"

text \<open>
  Two documents that differ only in the order of their lists and of their dictionary
  keys: the same services with the same multiplicities, the same keys, and under each key
  the same values with the same multiplicities. Keys of a dictionary are unique.
\<close>

definition dict_mset :: "('k \<times> 'v list) list \<Rightarrow> ('k \<times> 'v multiset) multiset" where
  "dict_mset d = mset (map (\<lambda>kv. (fst kv, mset (snd kv))) d)"

definition same_dict :: "('k \<times> 'v list) list \<Rightarrow> ('k \<times> 'v list) list \<Rightarrow> bool" where
  "same_dict d1 d2 =
     (distinct (map fst d1) \<and> distinct (map fst d2) \<and> dict_mset d1 = dict_mset d2)"

definition same_architecture :: "architecture \<Rightarrow> architecture \<Rightarrow> bool" where
  "same_architecture a b =
     (mset (services a) = mset (services b)
      \<and> same_dict (service_dependencies a) (service_dependencies b)
      \<and> same_dict (service_endpoints a) (service_endpoints b))"

text \<open>The same, with lists compared as sets only (duplicates ignored).\<close>

definition same_dict_sets :: "('k \<times> 'v list) list \<Rightarrow> ('k \<times> 'v list) list \<Rightarrow> bool" where
  "same_dict_sets d1 d2 =
     (distinct (map fst d1) \<and> distinct (map fst d2)
      \<and> set (map (\<lambda>kv. (fst kv, set (snd kv))) d1)
        = set (map (\<lambda>kv. (fst kv, set (snd kv))) d2))"

definition same_architecture_sets :: "architecture \<Rightarrow> architecture \<Rightarrow> bool" where
  "same_architecture_sets a b =
     (set (services a) = set (services b)
      \<and> same_dict_sets (service_dependencies a) (service_dependencies b)
      \<and> same_dict_sets (service_endpoints a) (service_endpoints b))"

text \<open>When \<^verbatim>\<open>sorted\<close> raises, as a property of the multiset of the elements.\<close>

definition raises :: "string option multiset \<Rightarrow> bool" where
  "raises m = (None \<in># m \<and> 2 \<le> size m)"

section \<open>Drift tracker (advanced_drift_tracker.py)\<close>

subsection \<open>Comparison of two snapshots\<close>

text \<open>\<^verbatim>\<open>str(x)\<close> inside an f-string.\<close>

definition py_str :: "string option \<Rightarrow> string" where
  "py_str v = (case v of None \<Rightarrow> ''None'' | Some s \<Rightarrow> s)"

text \<open>\<^verbatim>\<open>list(set(xs) - set(ys))\<close>, in some order.\<close>

definition set_difference :: "'a list \<Rightarrow> 'a list \<Rightarrow> 'a list" where
  "set_difference xs ys = filter (\<lambda>x. x \<notin> set ys) (remdups xs)"

definition flatten_dependencies :: "(string option \<times> string option list) list \<Rightarrow> string list" where
  "flatten_dependencies dependencies_dict =
     remdups (concat (map (\<lambda>kv. map (\<lambda>target. py_str (fst kv) @ '' -> '' @ py_str target) (snd kv))
                          dependencies_dict))"

definition flatten_endpoints :: "(string option \<times> string list) list \<Rightarrow> string list" where
  "flatten_endpoints endpoints_dict =
     remdups (concat (map (\<lambda>kv. map (\<lambda>ep. py_str (fst kv) @ '':'' @ ep) (snd kv))
                          endpoints_dict))"

definition detect_changes :: "architecture \<Rightarrow> architecture \<Rightarrow> changes" where
  "detect_changes previous current =
     \<lparr>services_added = set_difference (services current) (services previous),
      services_removed = set_difference (services previous) (services current),
      dependencies_added =
        set_difference (flatten_dependencies (service_dependencies current))
                       (flatten_dependencies (service_dependencies previous)),
      dependencies_removed =
        set_difference (flatten_dependencies (service_dependencies previous))
                       (flatten_dependencies (service_dependencies current)),
      endpoints_added =
        set_difference (flatten_endpoints (service_endpoints current))
                       (flatten_endpoints (service_endpoints previous)),
      endpoints_removed =
        set_difference (flatten_endpoints (service_endpoints previous))
                       (flatten_endpoints (service_endpoints current))\<rparr>"

text \<open>The tracker's own \<^verbatim>\<open>_calculate_drift_score(changes)\<close>.\<close>

definition tracker_calculate_drift_score :: "changes \<Rightarrow> int" where
  "tracker_calculate_drift_score c =
     min (0 + int (length (services_added c)) * 15
            + int (length (services_removed c)) * 20
            + int (length (dependencies_added c)) * 7
            + int (length (dependencies_removed c)) * 10
            + int (length (endpoints_added c)) * 3
            + int (length (endpoints_removed c)) * 5) 100"

subsection \<open>History\<close>

text \<open>
  The \<^verbatim>\<open>changes\<close> entry of a stored snapshot is either the dictionary
  \<^verbatim>\<open>{'initial_snapshot': True}\<close> or the six lists of \<^verbatim>\<open>_detect_changes\<close>.
  A stored entry carries the keys that \<^verbatim>\<open>capture_snapshot\<close> writes; the history
  file holds a list of such entries.
\<close>

datatype change_set = Initial_snapshot | Changes changes

record snapshot =
  snap_timestamp :: string
  hash :: string
  architecture :: architecture
  snap_metrics :: metrics
  snap_changes :: change_set
  snap_drift_score :: int

text \<open>
  A JSON file on disk: absent, present with contents that \<^verbatim>\<open>json.load\<close> rejects, or
  present with a parsed value.
\<close>

datatype 'a json_file = Absent | Malformed | Parsed 'a

text \<open>
  The tracker object and the files of its history directory: \<^verbatim>\<open>drift_history.json\<close>
  and the \<^verbatim>\<open>snapshot_*.json\<close> files by name.
\<close>

record tracker =
  history :: "snapshot list"
  history_file :: "snapshot list json_file"
  snapshot_files :: "string \<rightharpoonup> snapshot"

text \<open>What \<^verbatim>\<open>_load_history\<close> prints.\<close>

datatype load_message = Loaded nat | No_previous_history | Creating_new

text \<open>
  \<^verbatim>\<open>_load_history\<close>. The bare \<^verbatim>\<open>except:\<close> catches whatever
  \<^verbatim>\<open>open\<close> and \<^verbatim>\<open>json.load\<close> raise, so the function always returns.
\<close>

definition load_history :: "tracker \<Rightarrow> load_message \<times> tracker" where
  "load_history self =
     (case history_file self of
        Parsed h \<Rightarrow> (Loaded (length h), self\<lparr>history := h\<rparr>)
      | Malformed \<Rightarrow> (No_previous_history, self\<lparr>history := []\<rparr>)
      | Absent \<Rightarrow> (Creating_new, self\<lparr>history := []\<rparr>))"

text \<open>\<^verbatim>\<open>__init__\<close> on a history directory with the given files.\<close>

definition init_tracker ::
  "snapshot list json_file \<Rightarrow> (string \<rightharpoonup> snapshot) \<Rightarrow> load_message \<times> tracker" where
  "init_tracker file files =
     load_history \<lparr>history = [], history_file = file, snapshot_files = files\<rparr>"

definition save_history :: "tracker \<Rightarrow> tracker" where
  "save_history self = self\<lparr>history_file := Parsed (history self)\<rparr>"

text \<open>
  \<^verbatim>\<open>capture_snapshot\<close>. \<open>discovered\<close> is the file \<^verbatim>\<open>discovered_architecture.json\<close>,
  \<open>now\<close> the ISO timestamp and \<open>stamp\<close> the \<^verbatim>\<open>%Y%m%d_%H%M%S\<close> time of the file name.
  The result is the returned snapshot (\<^verbatim>\<open>None\<close> when nothing was captured) and the tracker
  afterwards; only \<^verbatim>\<open>FileNotFoundError\<close> is caught.
\<close>

definition capture_snapshot ::
  "string \<Rightarrow> string \<Rightarrow> architecture json_file \<Rightarrow> tracker
     \<Rightarrow> py_error + (snapshot option \<times> tracker)" where
  "capture_snapshot now stamp discovered self =
     (case discovered of
        Absent \<Rightarrow> Inr (None, self)
      | Malformed \<Rightarrow> Inl JSONDecodeError
      | Parsed current_arch \<Rightarrow>
          (case calculate_architecture_hash current_arch of
             Inl e \<Rightarrow> Inl e
           | Inr arch_hash \<Rightarrow>
               if history self \<noteq> [] \<and> hash (last (history self)) = arch_hash
               then Inr (None, self)
               else
                 (let snapshot =
                        \<lparr>snap_timestamp = now,
                         hash = arch_hash,
                         architecture = current_arch,
                         snap_metrics = metrics current_arch,
                         snap_changes =
                           (if history self \<noteq> []
                            then Changes (detect_changes (architecture (last (history self)))
                                                         current_arch)
                            else Initial_snapshot),
                         snap_drift_score =
                           (if history self \<noteq> []
                            then tracker_calculate_drift_score
                                   (detect_changes (architecture (last (history self)))
                                                   current_arch)
                            else 0)\<rparr>;
                      self1 = self\<lparr>history := history self @ [snapshot]\<rparr>;
                      self2 = self1\<lparr>snapshot_files :=
                                (snapshot_files self1)(''snapshot_'' @ stamp @ ''.json'' \<mapsto> snapshot)\<rparr>
                  in Inr (Some snapshot, save_history self2))))"

section \<open>Example inputs\<close>

definition example_metrics :: metrics where
  "example_metrics =
     \<lparr>total_services = 0, total_dependencies = 0, total_endpoints = 0, total_journeys = 0\<rparr>"

definition single_service :: architecture where
  "single_service =
     \<lparr>arch_timestamp = ''2025-01-01T00:00:00'', discovery_method = ''llm_powered_tracing'',
      arch_total_services = 1, services = [Some ''a''],
      service_dependencies = [], service_endpoints = [],
      user_journeys = [], metrics = example_metrics\<rparr>"

definition repeated_service :: architecture where
  "repeated_service = single_service\<lparr>services := [Some ''a'', Some ''a'']\<rparr>"

definition shop_architecture :: architecture where
  "shop_architecture =
     \<lparr>arch_timestamp = ''2025-01-01T00:00:00'', discovery_method = ''llm_powered_tracing'',
      arch_total_services = 3, services = [Some ''auth'', Some ''pay'', Some ''product''],
      service_dependencies =
        [(Some ''auth'', [Some ''product'', Some ''pay'']), (Some ''product'', [Some ''pay''])],
      service_endpoints = [(Some ''auth'', [''/login'', ''/logout'']), (Some ''pay'', [''/charge''])],
      user_journeys = [], metrics = example_metrics\<rparr>"

definition shop_architecture_later :: architecture where
  "shop_architecture_later =
     \<lparr>arch_timestamp = ''2025-06-30T12:00:00'', discovery_method = ''llm_powered_tracing'',
      arch_total_services = 3, services = [Some ''product'', Some ''auth'', Some ''pay''],
      service_dependencies =
        [(Some ''product'', [Some ''pay'']), (Some ''auth'', [Some ''pay'', Some ''product''])],
      service_endpoints = [(Some ''pay'', [''/charge'']), (Some ''auth'', [''/logout'', ''/login''])],
      user_journeys = [],
      metrics = example_metrics\<lparr>total_services := 3, total_journeys := 7\<rparr>\<rparr>"

definition example_fetch :: "string \<Rightarrow> event list" where
  "example_fetch cid =
     (if cid = ''c1'' then
        [\<lparr>service = Some ''auth'', endpoint = Some ''/login'', timestamp = Some ''t1''\<rparr>,
         \<lparr>service = Some ''product'', endpoint = Some ''/search'', timestamp = Some ''t2''\<rparr>]
      else if cid = ''c2'' then
        [\<lparr>service = Some ''product'', endpoint = Some ''/search'', timestamp = Some ''t3''\<rparr>,
         \<lparr>service = Some ''pay'', endpoint = Some ''/charge'', timestamp = Some ''t4''\<rparr>,
         \<lparr>service = Some ''auth'', endpoint = None, timestamp = Some ''t5''\<rparr>]
      else [])"

definition example_snapshot :: snapshot where
  "example_snapshot =
     \<lparr>snap_timestamp = ''2025-01-01T00:00:05'',
      hash = ''ae2710b91d4ceca02344ac095e37d7b5'',
      architecture = single_service,
      snap_metrics = example_metrics,
      snap_changes = Initial_snapshot,
      snap_drift_score = 0\<rparr>"

definition example_tracker :: tracker where
  "example_tracker =
     \<lparr>history = [example_snapshot],
      history_file = Parsed [example_snapshot],
      snapshot_files = [''snapshot_20250101_000005.json'' \<mapsto> example_snapshot]\<rparr>"

section \<open>Properties of the drift scorer\<close>

lemma severity_of_drift_score:
  "severity (calculate_drift_score d) = severity_of (drift_score (calculate_drift_score d))"
  by (simp add: calculate_drift_score_def Let_def)

text \<open>
  C1. For every change set the drift score computed by the detector equals
  15 * |services_added| + 20 * |services_removed| + 7 * |dependencies_added|
  + 10 * |dependencies_removed| + 3 * |endpoints_added| + 5 * |endpoints_removed|,
  clamped at 100 (the minimum of the sum and 100, no wrap-around), and so it is an
  integer between 0 and 100. The tracker's own scoring function gives the same score.
\<close>

theorem drift_score_clamped_weighted_sum:
  "drift_score (calculate_drift_score d) =
     min (15 * int (length (services_added (changes d)))
          + 20 * int (length (services_removed (changes d)))
          + 7 * int (length (dependencies_added (changes d)))
          + 10 * int (length (dependencies_removed (changes d)))
          + 3 * int (length (endpoints_added (changes d)))
          + 5 * int (length (endpoints_removed (changes d)))) 100
   \<and> 0 \<le> drift_score (calculate_drift_score d)
   \<and> drift_score (calculate_drift_score d) \<le> 100
   \<and> tracker_calculate_drift_score (changes d) = drift_score (calculate_drift_score d)"
  by (simp add: calculate_drift_score_def weighted_score_def tracker_calculate_drift_score_def
        Let_def)

text \<open>
  C2. For every drift score s with 0 <= s <= 100 the severity tier is NO_CHANGE when
  s = 0, LOW when 1 <= s <= 19, MEDIUM when 20 <= s <= 49, HIGH when 50 <= s <= 79 and
  CRITICAL when 80 <= s <= 100; and the tier never decreases when the score grows.
\<close>

theorem severity_tiers_monotone:
  assumes "0 \<le> s" and "s \<le> 100" and "0 \<le> t" and "t \<le> 100" and "s \<le> t"
  shows "severity_of s =
           (if s = 0 then NO_CHANGE
            else if 1 \<le> s \<and> s \<le> 19 then LOW
            else if 20 \<le> s \<and> s \<le> 49 then MEDIUM
            else if 50 \<le> s \<and> s \<le> 79 then HIGH
            else CRITICAL)
         \<and> severity_rank (severity_of s) \<le> severity_rank (severity_of t)"
  using assms by (auto simp: severity_of_def)

theorem severity_tiers_monotone_witness:
  "(0::int) \<le> 19 \<and> (19::int) \<le> 100 \<and> (0::int) \<le> 20 \<and> (20::int) \<le> 100 \<and> (19::int) \<le> 20
   \<and> severity_of 19 = LOW \<and> severity_of 20 = MEDIUM
   \<and> severity_rank (severity_of 19) \<le> severity_rank (severity_of 20)"
proof -
  have a: "(0::int) \<le> 19" and b: "(19::int) \<le> 100" by simp_all
  have c: "(0::int) \<le> 20" and e: "(20::int) \<le> 100" and f: "(19::int) \<le> 20" by simp_all
  note h1 = severity_tiers_monotone [OF a b c e f]
  note h2 = severity_tiers_monotone [OF c e c e]
  from h1 have "severity_of 19 = LOW" by simp
  moreover from h1 have "severity_rank (severity_of 19) \<le> severity_rank (severity_of 20)"
    by (rule conjunct2)
  moreover from h2 have "severity_of 20 = MEDIUM" by simp
  ultimately show ?thesis by simp
qed

section \<open>Properties of trace analysis\<close>

lemma dict_rel_Nil [simp]: "dict_rel [] = {}"
  by (simp add: dict_rel_def)

lemma dict_rel_Cons: "dict_rel ((k, vs) # d) = (Pair k ` set vs) \<union> dict_rel d"
  by (simp add: dict_rel_def)

lemma dict_rel_iff: "(k, v) \<in> dict_rel d \<longleftrightarrow> (\<exists>vs. (k, vs) \<in> set d \<and> v \<in> set vs)"
proof (induction d)
  case Nil
  then show ?case by simp
next
  case (Cons kv d)
  obtain k' vs' where kv: "kv = (k', vs')" by (cases kv)
  show ?case unfolding kv dict_rel_Cons using Cons by auto
qed

lemma dict_rel_alt: "dict_rel d = {(k, v). \<exists>vs. (k, vs) \<in> set d \<and> v \<in> set vs}"
  by (auto simp: dict_rel_iff)

lemma set_set_add [simp]: "set (set_add x xs) = insert x (set xs)"
  by (auto simp: set_add_def)

lemma distinct_set_add [simp]: "distinct xs \<Longrightarrow> distinct (set_add x xs)"
  by (simp add: set_add_def)

lemma set_add_not_Nil [simp]: "set_add x xs \<noteq> []"
  by (auto simp: set_add_def)

lemma dict_rel_dict_add [simp]: "dict_rel (dict_add k v d) = insert (k, v) (dict_rel d)"
  by (induction d) (auto simp: dict_rel_Cons split: if_splits)

lemma keys_dict_add [simp]: "fst ` set (dict_add k v d) = insert k (fst ` set d)"
proof (induction d)
  case Nil
  then show ?case by simp
next
  case (Cons kv d)
  obtain k' vs where kv: "kv = (k', vs)" by (cases kv)
  show ?case
  proof (cases "k' = k")
    case True
    then show ?thesis by (simp add: kv)
  next
    case False
    then show ?thesis using Cons by (simp add: kv insert_commute)
  qed
qed

lemma distinct_keys_dict_add [simp]:
  "distinct (map fst d) \<Longrightarrow> distinct (map fst (dict_add k v d))"
proof (induction d)
  case Nil
  then show ?case by simp
next
  case (Cons kv d)
  obtain k' vs where kv: "kv = (k', vs)" by (cases kv)
  have "fst ` set (dict_add k v d) = insert k (fst ` set d)" by simp
  with Cons kv show ?case by (auto simp del: keys_dict_add)
qed

lemma wf_values_Cons [simp]:
  "wf_values (kv # d) = (distinct (snd kv) \<and> snd kv \<noteq> [] \<and> wf_values d)"
  by (simp add: wf_values_def)

lemma wf_values_Nil [simp]: "wf_values []"
  by (simp add: wf_values_def)

lemma wf_values_dict_add [simp]: "wf_values d \<Longrightarrow> wf_values (dict_add k v d)"
proof (induction d)
  case Nil
  then show ?case by simp
next
  case (Cons kv d)
  obtain k' vs where kv: "kv = (k', vs)" by (cases kv)
  from Cons show ?case by (cases "k' = k") (simp_all add: kv)
qed

lemma consecutive_Cons_Cons [simp]: "consecutive (x # y # ys) = (x, y) # consecutive (y # ys)"
  by (simp add: consecutive_def)

lemma consecutive_single [simp]: "consecutive [x] = []"
  by (simp add: consecutive_def)

lemma consecutive_Nil [simp]: "consecutive [] = []"
  by (simp add: consecutive_def)

lemma trace_edges_Nil [simp]: "trace_edges prev [] = {}"
  by (simp add: trace_edges_def)

lemma trace_edges_Cons:
  "trace_edges prev (e # t) =
     (if truthy prev \<and> prev \<noteq> service e then {(prev, service e)} else {}) \<union> trace_edges (service e) t"
  by (auto simp: trace_edges_def)

lemma trace_endpoints_Nil [simp]: "trace_endpoints [] = {}"
  by (simp add: trace_endpoints_def)

lemma trace_endpoints_Cons:
  "trace_endpoints (e # t) =
     (case endpoint e of None \<Rightarrow> {} | Some ep \<Rightarrow> if ep \<noteq> [] then {(service e, ep)} else {})
       \<union> trace_endpoints t"
  by (auto simp: trace_endpoints_def split: option.splits)

lemma analyze_entries_dependencies:
  "dict_rel (self_service_dependencies (snd (snd (analyze_entries t sio eu prev self))))
     = dict_rel (self_service_dependencies self) \<union> trace_edges prev t"
  by (induction t arbitrary: sio eu prev self)
     (auto simp: trace_edges_Cons infer_dependency_def discover_endpoint_def discover_service_def
           split: option.splits)

lemma analyze_entries_endpoints:
  "dict_rel (self_service_endpoints (snd (snd (analyze_entries t sio eu prev self))))
     = dict_rel (self_service_endpoints self) \<union> trace_endpoints t"
  by (induction t arbitrary: sio eu prev self)
     (auto simp: trace_endpoints_Cons infer_dependency_def discover_endpoint_def discover_service_def
           split: option.splits)

lemma analyze_entries_all_services:
  "set (all_services (snd (snd (analyze_entries t sio eu prev self))))
     = set (all_services self) \<union> {s \<in> service ` set t. truthy s \<and> s \<notin> set sio}"
  by (induction t arbitrary: sio eu prev self)
     (auto simp: infer_dependency_def discover_endpoint_def discover_service_def
           split: option.splits)

lemma analyze_entries_services_in_order:
  "set (fst (analyze_entries t sio eu prev self))
     = set sio \<union> {s \<in> service ` set t. truthy s}"
  by (induction t arbitrary: sio eu prev self) auto

lemma analyze_entries_dependency_keys:
  "fst ` set (self_service_dependencies (snd (snd (analyze_entries t sio eu prev self))))
     = fst ` set (self_service_dependencies self) \<union> fst ` trace_edges prev t"
  by (induction t arbitrary: sio eu prev self)
     (auto simp: trace_edges_Cons infer_dependency_def discover_endpoint_def discover_service_def
           split: option.splits)

lemma analyze_entries_endpoint_keys:
  "fst ` set (self_service_endpoints (snd (snd (analyze_entries t sio eu prev self))))
     = fst ` set (self_service_endpoints self) \<union> fst ` trace_endpoints t"
  by (induction t arbitrary: sio eu prev self)
     (auto simp: trace_endpoints_Cons infer_dependency_def discover_endpoint_def discover_service_def
           split: option.splits)

lemma wf_tracer_steps:
  "wf_tracer self \<Longrightarrow> wf_tracer (discover_service svc sio self)"
  "wf_tracer self \<Longrightarrow> wf_tracer (discover_endpoint svc ep self)"
  "wf_tracer self \<Longrightarrow> wf_tracer (infer_dependency prev svc self)"
  by (auto simp: wf_tracer_def discover_service_def discover_endpoint_def infer_dependency_def
           split: option.splits)

lemma wf_tracer_analyze_entries:
  "wf_tracer self \<Longrightarrow> wf_tracer (snd (snd (analyze_entries t sio eu prev self)))"
  by (induction t arbitrary: sio eu prev self) (simp_all add: wf_tracer_steps)

lemma analyze_trace_tracer:
  "snd (analyze_trace cid t self) = snd (snd (analyze_entries t [] [] None self))"
  by (cases t) (simp_all add: analyze_trace_def split: prod.splits)

lemma process_journey_fields:
  "self_service_dependencies (process_journey fetch nc self)
     = self_service_dependencies (snd (snd (analyze_entries (fetch (snd nc)) [] [] None self)))"
  "self_service_endpoints (process_journey fetch nc self)
     = self_service_endpoints (snd (snd (analyze_entries (fetch (snd nc)) [] [] None self)))"
  "all_services (process_journey fetch nc self)
     = all_services (snd (snd (analyze_entries (fetch (snd nc)) [] [] None self)))"
  by (cases nc; cases "fetch (snd nc) = []";
      simp add: process_journey_def analyze_trace_def split: prod.splits)+

lemma wf_tracer_process_journey:
  "wf_tracer self \<Longrightarrow> wf_tracer (process_journey fetch nc self)"
  using wf_tracer_analyze_entries [of self "fetch (snd nc)" "[]" "[]" None]
  by (simp add: wf_tracer_def process_journey_fields)

lemma process_journey_content:
  "dict_rel (self_service_dependencies (process_journey fetch nc self))
     = dict_rel (self_service_dependencies self) \<union> trace_edges None (fetch (snd nc))"
  "fst ` set (self_service_dependencies (process_journey fetch nc self))
     = fst ` set (self_service_dependencies self) \<union> fst ` trace_edges None (fetch (snd nc))"
  "dict_rel (self_service_endpoints (process_journey fetch nc self))
     = dict_rel (self_service_endpoints self) \<union> trace_endpoints (fetch (snd nc))"
  "fst ` set (self_service_endpoints (process_journey fetch nc self))
     = fst ` set (self_service_endpoints self) \<union> fst ` trace_endpoints (fetch (snd nc))"
  "set (all_services (process_journey fetch nc self))
     = set (all_services self) \<union> trace_services (fetch (snd nc))"
  by (simp_all add: process_journey_fields analyze_entries_dependencies
        analyze_entries_dependency_keys analyze_entries_endpoints analyze_entries_endpoint_keys
        analyze_entries_all_services trace_services_def)

lemma process_all_content:
  "dict_rel (self_service_dependencies (process_all_correlation_ids fetch cids self))
     = dict_rel (self_service_dependencies self)
       \<union> (\<Union>nc \<in> set cids. trace_edges None (fetch (snd nc)))"
  "fst ` set (self_service_dependencies (process_all_correlation_ids fetch cids self))
     = fst ` set (self_service_dependencies self)
       \<union> (\<Union>nc \<in> set cids. fst ` trace_edges None (fetch (snd nc)))"
  "dict_rel (self_service_endpoints (process_all_correlation_ids fetch cids self))
     = dict_rel (self_service_endpoints self)
       \<union> (\<Union>nc \<in> set cids. trace_endpoints (fetch (snd nc)))"
  "fst ` set (self_service_endpoints (process_all_correlation_ids fetch cids self))
     = fst ` set (self_service_endpoints self)
       \<union> (\<Union>nc \<in> set cids. fst ` trace_endpoints (fetch (snd nc)))"
  "set (all_services (process_all_correlation_ids fetch cids self))
     = set (all_services self) \<union> (\<Union>nc \<in> set cids. trace_services (fetch (snd nc)))"
  by (induction cids arbitrary: self; simp add: process_journey_content Un_assoc)+

lemma wf_tracer_process_all:
  "wf_tracer self \<Longrightarrow> wf_tracer (process_all_correlation_ids fetch cids self)"
  by (induction cids arbitrary: self) (simp_all add: wf_tracer_process_journey)

lemma wf_tracer_init: "wf_tracer init_tracer"
  by (simp add: wf_tracer_def init_tracer_def)

lemma trace_edges_None: "trace_edges None t = set (adjacent_edges t)"
  by (cases t) (auto simp: trace_edges_def adjacent_edges_def truthy_def)

lemma trace_endpoints_iff:
  "(s, ep) \<in> trace_endpoints t
     \<longleftrightarrow> (\<exists>e \<in> set t. service e = s \<and> endpoint e = Some ep \<and> ep \<noteq> [])"
  by (induction t) (auto simp: trace_endpoints_Cons split: option.splits)

text \<open>
  C7 (amended). For every trace, analysed from any tracer state, the dependency edges
  recorded from that trace are exactly the pairs (previous_service, current_service) of
  consecutive events of that trace whose services differ and whose previous_service
  passes Python's truth test (it is neither null nor the empty string); nothing is carried
  over from an earlier trace. Consecutive events on the same service add no self-edge.
  The trace [(auth,/login),(auth,/login),(product,/search)] on a fresh tracer gives the
  services {auth, product}, the single dependency auth -> product and the endpoints
  {auth: [/login], product: [/search]}.
\<close>

theorem trace_dependency_edges:
  "dict_rel (self_service_dependencies (snd (analyze_trace cid t self)))
     = dict_rel (self_service_dependencies self)
       \<union> set (adjacent_edges t)
   \<and> (x, x) \<notin> dict_rel (self_service_dependencies (snd (analyze_trace cid t self)))
                 - dict_rel (self_service_dependencies self)
   \<and> snd (analyze_trace ''c1''
         [\<lparr>service = Some ''auth'', endpoint = Some ''/login'', timestamp = Some ''t1''\<rparr>,
          \<lparr>service = Some ''auth'', endpoint = Some ''/login'', timestamp = Some ''t2''\<rparr>,
          \<lparr>service = Some ''product'', endpoint = Some ''/search'', timestamp = Some ''t3''\<rparr>]
         init_tracer)
       = \<lparr>self_service_dependencies = [(Some ''auth'', [Some ''product''])],
          self_service_endpoints = [(Some ''auth'', [''/login'']), (Some ''product'', [''/search''])],
          self_user_journeys = [],
          all_services = [Some ''auth'', Some ''product'']\<rparr>"
proof -
  have eq: "dict_rel (self_service_dependencies (snd (analyze_trace cid t self)))
     = dict_rel (self_service_dependencies self)
       \<union> set (adjacent_edges t)"
    by (simp add: analyze_trace_tracer analyze_entries_dependencies trace_edges_None)
  have self_edge: "(x, x) \<notin> dict_rel (self_service_dependencies (snd (analyze_trace cid t self)))
                 - dict_rel (self_service_dependencies self)"
    unfolding eq by (auto simp: adjacent_edges_def)
  have scenario: "snd (analyze_trace ''c1''
         [\<lparr>service = Some ''auth'', endpoint = Some ''/login'', timestamp = Some ''t1''\<rparr>,
          \<lparr>service = Some ''auth'', endpoint = Some ''/login'', timestamp = Some ''t2''\<rparr>,
          \<lparr>service = Some ''product'', endpoint = Some ''/search'', timestamp = Some ''t3''\<rparr>]
         init_tracer)
       = \<lparr>self_service_dependencies = [(Some ''auth'', [Some ''product''])],
          self_service_endpoints = [(Some ''auth'', [''/login'']), (Some ''product'', [''/search''])],
          self_user_journeys = [],
          all_services = [Some ''auth'', Some ''product'']\<rparr>"
    by (simp add: analyze_trace_def init_tracer_def truthy_def discover_service_def
          discover_endpoint_def infer_dependency_def set_add_def)
  from eq self_edge scenario show ?thesis by blast
qed

theorem trace_dependency_edges_witness:
  "dict_rel (self_service_dependencies (snd (analyze_trace ''c2'' (example_fetch ''c2'') init_tracer)))
     = {(Some ''product'', Some ''pay''), (Some ''pay'', Some ''auth'')}
   \<and> (Some ''pay'', Some ''pay'')
       \<notin> dict_rel (self_service_dependencies (snd (analyze_trace ''c2'' (example_fetch ''c2'') init_tracer)))"
proof -
  have e: "set (adjacent_edges (example_fetch ''c2''))
             = {(Some ''product'', Some ''pay''), (Some ''pay'', Some ''auth'')}"
    by (auto simp: adjacent_edges_def example_fetch_def truthy_def)
  from trace_dependency_edges [of "''c2''" "example_fetch ''c2''" init_tracer "Some ''pay''"]
  show ?thesis by (simp add: e init_tracer_def)
qed

text \<open>
  As stated, with previous_service only required to be non-null, C7 fails: after an event
  whose service is the empty string (not null, and different from the next service) no
  edge is recorded.
\<close>

theorem empty_previous_service_counterexample:
  "self_service_dependencies (snd (analyze_trace ''c1''
       [\<lparr>service = Some '''', endpoint = None, timestamp = None\<rparr>,
        \<lparr>service = Some ''a'', endpoint = None, timestamp = None\<rparr>] init_tracer)) = []
   \<and> Some '''' \<noteq> (None :: string option) \<and> Some '''' \<noteq> Some ''a''"
  by (simp add: analyze_trace_def init_tracer_def truthy_def discover_service_def
        discover_endpoint_def infer_dependency_def set_add_def)

lemma consecutive_nth:
  "Suc i < length xs \<Longrightarrow> (xs ! i, xs ! Suc i) \<in> set (consecutive xs)"
proof -
  assume a: "Suc i < length xs"
  then have "i < length (zip xs (tl xs))" by simp
  moreover from a have "zip xs (tl xs) ! i = (xs ! i, xs ! Suc i)" by (simp add: nth_tl)
  ultimately show ?thesis unfolding consecutive_def by (metis nth_mem)
qed

text \<open>
  C10 (amended). For every trace in which an event without a service (null or absent)
  comes immediately after an event with a non-empty service s, trace analysis records the
  null value as a dependency target under source s; if that event carries a non-empty
  endpoint, the endpoint is catalogued under the null service key; and the null value is
  never added to the set of services.
\<close>

theorem null_service_after_service:
  assumes "Suc i < length t"
    and "service (t ! i) = Some s" and "s \<noteq> []"
    and "service (t ! Suc i) = None"
  shows "(Some s, None) \<in> dict_rel (self_service_dependencies (snd (analyze_trace cid t self)))
         \<and> (\<forall>ep. endpoint (t ! Suc i) = Some ep \<and> ep \<noteq> [] \<longrightarrow>
               (None, ep) \<in> dict_rel (self_service_endpoints (snd (analyze_trace cid t self))))
         \<and> (None \<in> set (all_services (snd (analyze_trace cid t self)))
               \<longrightarrow> None \<in> set (all_services self))"
proof -
  from assms(1) have "(map service t ! i, map service t ! Suc i) \<in> set (consecutive (map service t))"
    by (intro consecutive_nth) simp
  with assms have "(Some s, None) \<in> set (consecutive (map service t))" by simp
  with assms(3) have "(Some s, None) \<in> trace_edges None t"
    by (simp add: trace_edges_None adjacent_edges_def truthy_def)
  then have a: "(Some s, None) \<in> dict_rel (self_service_dependencies (snd (analyze_trace cid t self)))"
    by (simp add: analyze_trace_tracer analyze_entries_dependencies)
  have b: "(None, ep) \<in> dict_rel (self_service_endpoints (snd (analyze_trace cid t self)))"
    if "endpoint (t ! Suc i) = Some ep" and "ep \<noteq> []" for ep
  proof -
    from assms(1) have "t ! Suc i \<in> set t" by simp
    with that assms(4) have "(None, ep) \<in> trace_endpoints t"
      unfolding trace_endpoints_iff by force
    then show ?thesis by (simp add: analyze_trace_tracer analyze_entries_endpoints)
  qed
  have c: "None \<in> set (all_services (snd (analyze_trace cid t self)))
               \<longrightarrow> None \<in> set (all_services self)"
    by (auto simp: analyze_trace_tracer analyze_entries_all_services truthy_def)
  from a b c show ?thesis by blast
qed

lemma dict_relI: "kv \<in> set d \<Longrightarrow> v \<in> set (snd kv) \<Longrightarrow> (fst kv, v) \<in> dict_rel d"
  unfolding dict_rel_iff by (auto intro: exI [of _ "snd kv"])

lemma consecutive_subset: "set (consecutive xs) \<subseteq> set xs \<times> set xs"
proof
  fix pc assume a: "pc \<in> set (consecutive xs)"
  obtain p c where pc: "pc = (p, c)" by (cases pc)
  from a have z: "(p, c) \<in> set (zip xs (tl xs))" by (simp add: consecutive_def pc)
  from z have "p \<in> set xs" by (rule set_zip_leftD)
  moreover from z have "c \<in> set (tl xs)" by (rule set_zip_rightD)
  then have "c \<in> set xs" by (cases xs) simp_all
  ultimately show "pc \<in> set xs \<times> set xs" by (simp add: pc)
qed

lemma trace_edges_subset:
  "trace_edges None t \<subseteq> service ` set t \<times> service ` set t"
  using consecutive_subset [of "map service t"]
  by (auto simp: trace_edges_None adjacent_edges_def)

lemma trace_edges_keys_subset: "fst ` trace_edges None t \<subseteq> service ` set t"
  using trace_edges_subset [of t] by auto

lemma trace_endpoints_subset: "fst ` trace_endpoints t \<subseteq> service ` set t"
  by (auto simp: trace_endpoints_iff)

lemma set_py_sorted: "py_sorted xs = Inr ys \<Longrightarrow> set ys = set xs"
  by (auto simp: py_sorted_def split: if_splits)

text \<open>
  C3 (amended). For every list of traces in which every event carries a service that is
  neither null nor the empty string, discovery returns a snapshot and the snapshot
  satisfies the closure property: every key of the dependency mapping, every dependency
  target and every key of the endpoint mapping is a member of services.
\<close>

theorem closure_of_discovered_architecture:
  assumes "\<forall>nc \<in> set correlation_ids. \<forall>e \<in> set (fetch (snd nc)). truthy (service e)"
  shows "\<exists>a. discover now fetch correlation_ids = Inr a \<and> closure a"
proof -
  define self where "self = process_all_correlation_ids fetch correlation_ids init_tracer"
  define S where "S = (\<Union>nc \<in> set correlation_ids. service ` set (fetch (snd nc)))"
  have all: "set (all_services self) = S"
    using assms by (auto simp: self_def S_def process_all_content init_tracer_def trace_services_def)
  have truthy_S: "truthy s" if "s \<in> S" for s
    using that assms by (auto simp: S_def)
  have "None \<notin> S" using truthy_S [of None] by (auto simp: truthy_def)
  with all have sorted: "py_sorted (all_services self) = Inr (sort (all_services self))"
    by (simp add: py_sorted_def)
  have dep_rel: "dict_rel (self_service_dependencies self) \<subseteq> S \<times> S"
    using trace_edges_subset by (fastforce simp: self_def S_def process_all_content init_tracer_def)
  have "fst ` set (self_service_dependencies self)
          = (\<Union>nc \<in> set correlation_ids. fst ` trace_edges None (fetch (snd nc)))"
    by (simp add: self_def process_all_content init_tracer_def)
  also have "\<dots> \<subseteq> S"
    unfolding S_def by (rule UN_mono) (simp_all add: trace_edges_keys_subset)
  finally have dep_keys: "fst ` set (self_service_dependencies self) \<subseteq> S" .
  have "fst ` set (self_service_endpoints self)
          = (\<Union>nc \<in> set correlation_ids. fst ` trace_endpoints (fetch (snd nc)))"
    by (simp add: self_def process_all_content init_tracer_def)
  also have "\<dots> \<subseteq> S"
    unfolding S_def by (rule UN_mono) (simp_all add: trace_endpoints_subset)
  finally have ep_keys: "fst ` set (self_service_endpoints self) \<subseteq> S" .
  have targets: "set (snd kv) \<subseteq> S" if "kv \<in> set (self_service_dependencies self)" for kv
  proof
    fix v assume "v \<in> set (snd kv)"
    with that have "(fst kv, v) \<in> dict_rel (self_service_dependencies self)"
      by (rule dict_relI)
    with dep_rel show "v \<in> S" by auto
  qed
  obtain a where a: "discover now fetch correlation_ids = Inr a"
    and sv: "services a = sort (all_services self)"
    and dp: "service_dependencies a = self_service_dependencies self"
    and ep: "service_endpoints a = self_service_endpoints self"
    using sorted by (simp add: discover_def build_architecture_map_def self_def [symmetric])
  have "closure a"
    unfolding closure_def sv dp ep using dep_keys ep_keys targets all by auto
  with a show ?thesis by blast
qed

theorem closure_of_discovered_architecture_witness:
  "\<exists>a. discover ''2025-01-01T00:00:00'' example_fetch [(''login'', ''c1''), (''checkout'', ''c2'')]
         = Inr a \<and> closure a"
proof -
  have h: "\<forall>nc \<in> set [(''login'', ''c1''), (''checkout'', ''c2'')].
      \<forall>e \<in> set (example_fetch (snd nc)). truthy (service e)"
    by (simp add: truthy_def example_fetch_def)
  from closure_of_discovered_architecture [OF h] show ?thesis .
qed

text \<open>
  As stated, for every list of traces, C3 fails: an event without a service after an event
  of service a leaves the null value as a dependency target and as an endpoint owner,
  outside services, and the snapshot is returned as it is.
\<close>

theorem null_service_breaks_closure_counterexample:
  "(case discover ''2025-01-01T00:00:00''
           (\<lambda>cid. [\<lparr>service = Some ''a'', endpoint = Some ''/x'', timestamp = None\<rparr>,
                    \<lparr>service = None, endpoint = Some ''/y'', timestamp = None\<rparr>])
           [(''j'', ''c1'')] of
      Inl e \<Rightarrow> False
    | Inr a \<Rightarrow> services a = [Some ''a'']
        \<and> service_dependencies a = [(Some ''a'', [None])]
        \<and> service_endpoints a = [(Some ''a'', [''/x'']), (None, [''/y''])]
        \<and> \<not> closure a)"
  by (simp add: discover_def build_architecture_map_def py_sorted_def process_journey_def
        analyze_trace_def init_tracer_def truthy_def discover_service_def
        discover_endpoint_def infer_dependency_def set_add_def closure_def)

theorem null_service_after_service_witness:
  "Suc 0 < length [\<lparr>service = Some ''a'', endpoint = Some ''/x'', timestamp = None\<rparr>,
                   \<lparr>service = None, endpoint = Some ''/y'', timestamp = None\<rparr>]
   \<and> (Some ''a'', None) \<in> dict_rel (self_service_dependencies (snd (analyze_trace ''c1''
         [\<lparr>service = Some ''a'', endpoint = Some ''/x'', timestamp = None\<rparr>,
          \<lparr>service = None, endpoint = Some ''/y'', timestamp = None\<rparr>] init_tracer)))
   \<and> (None, ''/y'') \<in> dict_rel (self_service_endpoints (snd (analyze_trace ''c1''
         [\<lparr>service = Some ''a'', endpoint = Some ''/x'', timestamp = None\<rparr>,
          \<lparr>service = None, endpoint = Some ''/y'', timestamp = None\<rparr>] init_tracer)))
   \<and> None \<notin> set (all_services (snd (analyze_trace ''c1''
         [\<lparr>service = Some ''a'', endpoint = Some ''/x'', timestamp = None\<rparr>,
          \<lparr>service = None, endpoint = Some ''/y'', timestamp = None\<rparr>] init_tracer)))"
  using null_service_after_service [of 0
      "[\<lparr>service = Some ''a'', endpoint = Some ''/x'', timestamp = None\<rparr>,
        \<lparr>service = None, endpoint = Some ''/y'', timestamp = None\<rparr>]" "''a''" "''c1''" init_tracer]
  by (simp add: init_tracer_def)

text \<open>
  As stated, for every service s and every endpoint, C10 fails when s or the endpoint is
  the empty string: nothing is recorded.
\<close>

theorem empty_service_before_null_counterexample:
  "self_service_dependencies (snd (analyze_trace ''c1''
       [\<lparr>service = Some '''', endpoint = None, timestamp = None\<rparr>,
        \<lparr>service = None, endpoint = Some '''', timestamp = None\<rparr>] init_tracer)) = []
   \<and> self_service_endpoints (snd (analyze_trace ''c1''
       [\<lparr>service = Some '''', endpoint = None, timestamp = None\<rparr>,
        \<lparr>service = None, endpoint = Some '''', timestamp = None\<rparr>] init_tracer)) = []"
  by (simp add: analyze_trace_def init_tracer_def truthy_def discover_service_def
        discover_endpoint_def infer_dependency_def set_add_def)

section \<open>Properties of the fingerprint\<close>

text \<open>The digest function on two messages of the test suite of RFC 1321.\<close>

lemma md5_test_suite:
  "md5 '''' = ''d41d8cd98f00b204e9800998ecf8427e''"
  "md5 ''abc'' = ''900150983cd24fb0d6963f7d28e17f72''"
  by code_simp+

lemma sort_mset_cong: "mset xs = mset ys \<Longrightarrow> sort xs = sort ys"
  by (metis sorted_list_of_multiset_mset)

lemma py_sorted_mset_cong:
  assumes "mset xs = mset ys"
  shows "py_sorted xs = py_sorted ys"
proof -
  from assms have "set xs = set ys" and "length xs = length ys" and "sort xs = sort ys"
    by (rule mset_eq_setD, rule mset_eq_length, rule sort_mset_cong)
  then show ?thesis by (simp add: py_sorted_def)
qed

lemma py_sorted_raises:
  "py_sorted xs = (if raises (mset xs) then Inl TypeError else Inr (sort xs))"
  by (simp add: py_sorted_def raises_def)

lemma dict_mset_Cons: "dict_mset (kv # d) = add_mset (fst kv, mset (snd kv)) (dict_mset d)"
  by (simp add: dict_mset_def)

lemma dict_mset_Nil: "dict_mset [] = {#}"
  by (simp add: dict_mset_def)

lemma sorted_values_closed:
  "sorted_values d =
     (if \<exists>km \<in># dict_mset d. raises (snd km)
      then Inl TypeError
      else Inr (map (\<lambda>kv. (fst kv, sort (snd kv))) d))"
proof (induction d)
  case Nil
  then show ?case by (simp add: dict_mset_Nil)
next
  case (Cons kv d)
  show ?case
  proof (cases "raises (mset (snd kv))")
    case True
    then show ?thesis by (simp add: py_sorted_raises dict_mset_Cons)
  next
    case False
    then show ?thesis using Cons by (simp add: py_sorted_raises dict_mset_Cons)
  qed
qed

lemma filter_distinct_key:
  "distinct (map f xs) \<Longrightarrow> k \<in> set xs \<Longrightarrow> filter (\<lambda>x. f k = f x) xs = [k]"
proof (induction xs)
  case Nil
  then show ?case by simp
next
  case (Cons x xs)
  show ?case
  proof (cases "k = x")
    case True
    with Cons.prems have "filter (\<lambda>y. f k = f y) xs = []"
      by (auto simp: filter_empty_conv)
    with True show ?thesis by simp
  next
    case False
    with Cons.prems have kxs: "k \<in> set xs" by simp
    then have "f k \<in> f ` set xs" by (rule imageI)
    with Cons.prems have "f k \<noteq> f x" by auto
    with Cons kxs show ?thesis by simp
  qed
qed

lemma sort_key_mset_cong:
  assumes "mset xs = mset ys" and "distinct (map f xs)"
  shows "sort_key f xs = sort_key f ys"
proof (rule properties_for_sort_key)
  show "mset (sort_key f ys) = mset xs" using assms(1) by simp
  show "sorted (map f (sort_key f ys))" by simp
  fix k assume k: "k \<in> set (sort_key f ys)"
  from assms(1) have "mset (map f xs) = mset (map f ys)" by (metis mset_map)
  with assms(2) have dy: "distinct (map f ys)" by (metis mset_eq_imp_distinct_iff)
  have "mset (map f (sort_key f ys)) = mset (map f ys)" by simp
  with dy have ds: "distinct (map f (sort_key f ys))" by (metis mset_eq_imp_distinct_iff)
  from k assms(1) have kx: "k \<in> set xs" by (metis mset_eq_setD set_sort)
  show "filter (\<lambda>x. f k = f x) (sort_key f ys) = filter (\<lambda>x. f k = f x) xs"
    by (simp add: filter_distinct_key [OF ds k] filter_distinct_key [OF assms(2) kx])
qed

lemma sorted_items_dict_mset:
  "mset (map (\<lambda>kv. (fst kv, sort (snd kv))) d)
     = image_mset (\<lambda>km. (fst km, sorted_list_of_multiset (snd km))) (dict_mset d)"
  by (simp add: dict_mset_def multiset.map_comp comp_def)

lemma sort_keys_same:
  assumes "mset d1 = mset d2" and "distinct (map fst d1)"
  shows "sort_keys d1 = sort_keys d2"
proof -
  from assms(1) have "set d1 = set d2" and "length d1 = length d2"
    by (rule mset_eq_setD, rule mset_eq_length)
  with sort_key_mset_cong [OF assms] show ?thesis by (simp add: sort_keys_def)
qed

lemma same_dict_canonical:
  assumes "same_dict d1 d2"
  shows "sort_keys (map (\<lambda>kv. (fst kv, sort (snd kv))) d1)
           = sort_keys (map (\<lambda>kv. (fst kv, sort (snd kv))) d2)"
proof (rule sort_keys_same)
  from assms have "dict_mset d1 = dict_mset d2" by (simp add: same_dict_def)
  then show "mset (map (\<lambda>kv. (fst kv, sort (snd kv))) d1) = mset (map (\<lambda>kv. (fst kv, sort (snd kv))) d2)"
    by (simp only: sorted_items_dict_mset)
  from assms show "distinct (map fst (map (\<lambda>kv. (fst kv, sort (snd kv))) d1))"
    by (simp add: same_dict_def comp_def)
qed

lemma same_dict_sorted_values:
  assumes "same_dict d1 d2"
  shows "(case sorted_values d1 of Inl e \<Rightarrow> Inl e | Inr deps \<Rightarrow> sort_keys deps)
           = (case sorted_values d2 of Inl e \<Rightarrow> Inl e | Inr deps \<Rightarrow> sort_keys deps)"
proof -
  from assms have m: "dict_mset d1 = dict_mset d2" by (simp add: same_dict_def)
  show ?thesis
    unfolding sorted_values_closed m using same_dict_canonical [OF assms] by simp
qed

lemma arch_string_alt:
  "arch_string a =
     (case py_sorted (services a) of
        Inl e \<Rightarrow> Inl e
      | Inr svcs \<Rightarrow>
     (case (case sorted_values (service_dependencies a) of
              Inl e \<Rightarrow> Inl e | Inr deps \<Rightarrow> sort_keys deps) of
        Inl e \<Rightarrow> Inl e
      | Inr deps' \<Rightarrow>
     (case sort_keys (map (\<lambda>kv. (fst kv, sort (snd kv))) (service_endpoints a)) of
        Inl e \<Rightarrow> Inl e
      | Inr eps' \<Rightarrow>
          Inr (json_object
            [(''dependencies'',
                json_object (map (\<lambda>kv. (key_string (fst kv), json_array (map json_service (snd kv)))) deps')),
             (''endpoints'',
                json_object (map (\<lambda>kv. (key_string (fst kv), json_array (map json_string (snd kv)))) eps')),
             (''services'', json_array (map json_service svcs))]))))"
  by (simp add: arch_string_def split: sum.splits)

lemma same_architecture_arch_string:
  assumes "same_architecture a b"
  shows "arch_string a = arch_string b"
proof -
  from assms have "mset (services a) = mset (services b)"
    by (simp add: same_architecture_def)
  then have s: "py_sorted (services a) = py_sorted (services b)"
    by (rule py_sorted_mset_cong)
  from assms have sd: "same_dict (service_dependencies a) (service_dependencies b)"
    and se: "same_dict (service_endpoints a) (service_endpoints b)"
    by (simp_all add: same_architecture_def)
  note d = same_dict_sorted_values [OF sd]
  note e = same_dict_canonical [OF se]
  show ?thesis
    unfolding arch_string_alt s d e by (rule refl)
qed

lemma dict_rel_key:
  assumes "distinct (map fst d)" and "(k, vs) \<in> set d"
  shows "{v. (k, v) \<in> dict_rel d} = set vs"
proof (rule set_eqI)
  fix v
  show "v \<in> {v. (k, v) \<in> dict_rel d} \<longleftrightarrow> v \<in> set vs"
  proof
    assume "v \<in> {v. (k, v) \<in> dict_rel d}"
    then obtain vs' where a: "(k, vs') \<in> set d" and b: "v \<in> set vs'"
      unfolding dict_rel_iff by blast
    from assms(1) a assms(2) have "vs' = vs" by (rule eq_key_imp_eq_value)
    with b show "v \<in> set vs" by simp
  next
    assume "v \<in> set vs"
    with assms(2) show "v \<in> {v. (k, v) \<in> dict_rel d}"
      unfolding dict_rel_iff by blast
  qed
qed

lemma same_dict_of_rel_aux:
  assumes d1: "distinct (map fst d1)" and w1: "wf_values d1"
    and d2: "distinct (map fst d2)" and w2: "wf_values d2"
    and rel: "dict_rel d1 = dict_rel d2"
    and kv: "kv \<in> set d1"
  shows "(fst kv, mset (snd kv)) \<in> (\<lambda>kv. (fst kv, mset (snd kv))) ` set d2"
proof -
  obtain k vs where kvs: "kv = (k, vs)" by (cases kv)
  from kv w1 have vs: "distinct vs" "vs \<noteq> []" by (auto simp: wf_values_def kvs)
  then obtain v where v: "v \<in> set vs" by (cases vs) auto
  with kv have "(k, v) \<in> dict_rel d1" unfolding dict_rel_iff kvs by auto
  with rel have "(k, v) \<in> dict_rel d2" by simp
  then obtain vs' where vs': "(k, vs') \<in> set d2" unfolding dict_rel_iff by auto
  from dict_rel_key [OF d1] kv have "{v. (k, v) \<in> dict_rel d1} = set vs" by (simp add: kvs)
  moreover from dict_rel_key [OF d2 vs'] have "{v. (k, v) \<in> dict_rel d2} = set vs'" .
  ultimately have "set vs = set vs'" using rel by simp
  moreover from vs' w2 have "distinct vs'" by (auto simp: wf_values_def)
  ultimately have "mset vs = mset vs'"
    using vs(1) by (simp add: set_eq_iff_mset_eq_distinct)
  then have "(fst kv, mset (snd kv)) = (\<lambda>kv. (fst kv, mset (snd kv))) (k, vs')"
    by (simp add: kvs)
  then show ?thesis using vs' by (rule image_eqI)
qed

lemma distinct_dict_items:
  assumes "distinct (map fst d)"
  shows "distinct (map (\<lambda>kv. (fst kv, mset (snd kv))) d)"
proof -
  have "map fst (map (\<lambda>kv. (fst kv, mset (snd kv))) d) = map fst d" by (simp add: comp_def)
  with assms have "distinct (map fst (map (\<lambda>kv. (fst kv, mset (snd kv))) d))"
    by (simp only:)
  then show ?thesis by (simp only: distinct_map [of fst])
qed

lemma same_dict_of_rel:
  assumes d1: "distinct (map fst d1)" and w1: "wf_values d1"
    and d2: "distinct (map fst d2)" and w2: "wf_values d2"
    and rel: "dict_rel d1 = dict_rel d2"
  shows "same_dict d1 d2"
proof -
  let ?h = "\<lambda>kv :: 'a \<times> 'b list. (fst kv, mset (snd kv))"
  have a: "?h ` set d1 \<subseteq> ?h ` set d2"
  proof (rule image_subsetI)
    fix kv assume "kv \<in> set d1"
    then show "?h kv \<in> ?h ` set d2" by (rule same_dict_of_rel_aux [OF d1 w1 d2 w2 rel])
  qed
  have b: "?h ` set d2 \<subseteq> ?h ` set d1"
  proof (rule image_subsetI)
    fix kv assume "kv \<in> set d2"
    then show "?h kv \<in> ?h ` set d1"
      by (rule same_dict_of_rel_aux [OF d2 w2 d1 w1 rel [symmetric]])
  qed
  from a b have "set (map ?h d1) = set (map ?h d2)" by simp
  then have "mset (map ?h d1) = mset (map ?h d2)"
    by (rule iffD1 [OF set_eq_iff_mset_eq_distinct
          [OF distinct_dict_items [OF d1] distinct_dict_items [OF d2]]])
  then have "dict_mset d1 = dict_mset d2" unfolding dict_mset_def .
  then show ?thesis unfolding same_dict_def using d1 d2 by blast
qed

text \<open>
  C5 (amended). For any two architecture snapshot documents whose services,
  service_dependencies and service_endpoints fields are equal up to the order of list
  elements and of dictionary keys (the same keys, and the same elements with the same
  multiplicities; in particular duplicate-free lists that are equal as sets), the computed
  fingerprint is identical, whatever timestamp, user_journeys, metrics and the other
  fields hold: the fingerprint is a function of those three fields only. When sorting
  raises TypeError (a null among several elements) it does so for both documents.
\<close>

theorem fingerprint_of_three_fields:
  assumes "same_architecture a b"
  shows "calculate_architecture_hash a = calculate_architecture_hash b"
  using same_architecture_arch_string [OF assms] by (simp add: calculate_architecture_hash_def)

theorem fingerprint_of_three_fields_witness:
  "calculate_architecture_hash shop_architecture = calculate_architecture_hash shop_architecture_later
   \<and> arch_timestamp shop_architecture \<noteq> arch_timestamp shop_architecture_later
   \<and> services shop_architecture \<noteq> services shop_architecture_later"
proof -
  have h: "same_architecture shop_architecture shop_architecture_later"
    by (simp add: same_architecture_def same_dict_def dict_mset_def shop_architecture_def
          shop_architecture_later_def)
  from fingerprint_of_three_fields [OF h] show ?thesis
    by (simp add: shop_architecture_def shop_architecture_later_def)
qed

lemma single_service_hash:
  "calculate_architecture_hash single_service = Inr ''ae2710b91d4ceca02344ac095e37d7b5''"
  by code_simp

lemma repeated_service_hash:
  "calculate_architecture_hash repeated_service = Inr ''3d79b136d98299ab13a187320ea78d75''"
  by code_simp

text \<open>
  As stated, with the fields compared as sets, C5 fails: sorted() keeps duplicates, so
  the service lists [a] and [a, a], equal as sets, give different fingerprints.
\<close>

theorem duplicate_service_counterexample:
  "same_architecture_sets single_service repeated_service
   \<and> calculate_architecture_hash single_service \<noteq> calculate_architecture_hash repeated_service"
proof
  show "same_architecture_sets single_service repeated_service"
    by (simp add: same_architecture_sets_def same_dict_sets_def single_service_def
          repeated_service_def)
  show "calculate_architecture_hash single_service \<noteq> calculate_architecture_hash repeated_service"
    by (simp add: single_service_hash repeated_service_hash)
qed

lemma build_architecture_map_fields:
  assumes "None \<notin> set (all_services self)"
  shows "\<exists>a. build_architecture_map now self = Inr a
           \<and> services a = sort (all_services self)
           \<and> service_dependencies a = self_service_dependencies self
           \<and> service_endpoints a = self_service_endpoints self"
  using assms by (simp add: build_architecture_map_def py_sorted_def)

lemma process_all_no_null:
  "None \<notin> set (all_services (process_all_correlation_ids fetch cids init_tracer))"
  by (simp add: process_all_content init_tracer_def trace_services_def truthy_def)

lemma process_all_same_architecture:
  assumes "set cids' = set cids"
    and a: "build_architecture_map now (process_all_correlation_ids fetch cids init_tracer) = Inr a"
    and b: "build_architecture_map now' (process_all_correlation_ids fetch cids' init_tracer) = Inr b"
  shows "same_architecture a b"
proof -
  define s1 where "s1 = process_all_correlation_ids fetch cids init_tracer"
  define s2 where "s2 = process_all_correlation_ids fetch cids' init_tracer"
  have wf1: "wf_tracer s1" and wf2: "wf_tracer s2"
    unfolding s1_def s2_def by (rule wf_tracer_process_all [OF wf_tracer_init])+
  have rel_d: "dict_rel (self_service_dependencies s1) = dict_rel (self_service_dependencies s2)"
    and rel_e: "dict_rel (self_service_endpoints s1) = dict_rel (self_service_endpoints s2)"
    and all: "set (all_services s1) = set (all_services s2)"
    unfolding s1_def s2_def by (simp_all add: process_all_content assms(1))
  from a b have fa: "services a = sort (all_services s1)"
      "service_dependencies a = self_service_dependencies s1"
      "service_endpoints a = self_service_endpoints s1"
    and fb: "services b = sort (all_services s2)"
      "service_dependencies b = self_service_dependencies s2"
      "service_endpoints b = self_service_endpoints s2"
    unfolding s1_def s2_def
    by (auto simp: build_architecture_map_def py_sorted_def split: if_splits)
  from wf1 wf2 all have "mset (all_services s1) = mset (all_services s2)"
    by (simp add: wf_tracer_def set_eq_iff_mset_eq_distinct)
  then have "mset (services a) = mset (services b)" by (simp add: fa fb)
  moreover from wf1 wf2 rel_d
  have "same_dict (service_dependencies a) (service_dependencies b)"
    unfolding fa fb by (intro same_dict_of_rel) (simp_all add: wf_tracer_def)
  moreover from wf1 wf2 rel_e
  have "same_dict (service_endpoints a) (service_endpoints b)"
    unfolding fa fb by (intro same_dict_of_rel) (simp_all add: wf_tracer_def)
  ultimately show ?thesis by (simp add: same_architecture_def)
qed

text \<open>
  C6. For every list of journeys and every permutation of it, discovery returns a
  snapshot for both orders, whatever the times of the two runs, and the fingerprints of
  the two snapshots are the same (or the fingerprint raises the same TypeError for both):
  the merged services, dependency edges and endpoints depend only on which traces there
  are, not on their order. The same holds when the sets and dictionaries of the two
  snapshots are listed in any other order.
\<close>

theorem fingerprint_invariant_under_trace_order:
  assumes "mset correlation_ids' = mset correlation_ids"
  shows "\<exists>a b. discover now fetch correlation_ids = Inr a
           \<and> discover now' fetch correlation_ids' = Inr b
           \<and> calculate_architecture_hash a = calculate_architecture_hash b
           \<and> (\<forall>a' b'. same_architecture a a' \<and> same_architecture b b' \<longrightarrow>
                 calculate_architecture_hash a' = calculate_architecture_hash b')"
proof -
  from build_architecture_map_fields [OF process_all_no_null]
  obtain a where a: "discover now fetch correlation_ids = Inr a"
    unfolding discover_def by blast
  from build_architecture_map_fields [OF process_all_no_null]
  obtain b where b: "discover now' fetch correlation_ids' = Inr b"
    unfolding discover_def by blast
  from assms have "set correlation_ids' = set correlation_ids" by (rule mset_eq_setD)
  then have "same_architecture a b"
    using a b unfolding discover_def by (rule process_all_same_architecture)
  then have ab: "arch_string a = arch_string b" by (rule same_architecture_arch_string)
  have "calculate_architecture_hash a' = calculate_architecture_hash b'"
    if "same_architecture a a'" and "same_architecture b b'" for a' b'
    using that [THEN same_architecture_arch_string] ab
    by (simp add: calculate_architecture_hash_def)
  moreover from ab have "calculate_architecture_hash a = calculate_architecture_hash b"
    by (simp add: calculate_architecture_hash_def)
  ultimately show ?thesis using a b by blast
qed

theorem fingerprint_invariant_under_trace_order_witness:
  "\<exists>a b. discover ''2025-01-01T00:00:00'' example_fetch [(''login'', ''c1''), (''checkout'', ''c2'')] = Inr a
     \<and> discover ''2025-01-02T00:00:00'' example_fetch [(''checkout'', ''c2''), (''login'', ''c1'')] = Inr b
     \<and> calculate_architecture_hash a = calculate_architecture_hash b"
proof -
  have h: "mset [(''checkout'', ''c2''), (''login'', ''c1'')]
             = mset [(''login'', ''c1''), (''checkout'', ''c2'')]"
    by simp
  from fingerprint_invariant_under_trace_order [OF h] show ?thesis by blast
qed

lemma example_discover_orders:
  "map_sum id service_dependencies
     (discover ''2025-01-01T00:00:00'' example_fetch [(''login'', ''c1''), (''checkout'', ''c2'')])
   = Inr [(Some ''auth'', [Some ''product'']), (Some ''product'', [Some ''pay'']), (Some ''pay'', [Some ''auth''])]
   \<and> map_sum id service_dependencies
     (discover ''2025-01-02T00:00:00'' example_fetch [(''checkout'', ''c2''), (''login'', ''c1'')])
   = Inr [(Some ''product'', [Some ''pay'']), (Some ''pay'', [Some ''auth'']), (Some ''auth'', [Some ''product''])]"
  by (simp add: discover_def build_architecture_map_def py_sorted_def process_journey_def
        analyze_trace_def init_tracer_def truthy_def discover_service_def example_fetch_def
        discover_endpoint_def infer_dependency_def set_add_def)

section \<open>Properties of the history\<close>

text \<open>
  C4 (amended). When the persisted history file exists but its contents are not valid
  structured data, loading does not fail: it gives the empty history, the same history
  as when the file is absent, and only the printed message tells the two apart ("No
  previous history found - starting fresh" against "Creating new drift history"). A
  valid file loads its entries.
\<close>

theorem load_history_of_malformed_file:
  "load_history (self\<lparr>history_file := Malformed\<rparr>)
     = (No_previous_history, self\<lparr>history_file := Malformed, history := []\<rparr>)
   \<and> load_history (self\<lparr>history_file := Absent\<rparr>)
     = (Creating_new, self\<lparr>history_file := Absent, history := []\<rparr>)
   \<and> load_history (self\<lparr>history_file := Parsed h\<rparr>)
     = (Loaded (length h), self\<lparr>history_file := Parsed h, history := h\<rparr>)"
  by (simp add: load_history_def)

text \<open>
  As stated, C4 fails: a tracker created on a malformed history file is returned, with
  an empty history, the same history as on an absent file.
\<close>

theorem malformed_history_counterexample:
  "init_tracker Malformed Map.empty
     = (No_previous_history, \<lparr>history = [], history_file = Malformed, snapshot_files = Map.empty\<rparr>)
   \<and> history (snd (init_tracker Malformed Map.empty))
     = history (snd (init_tracker Absent Map.empty))"
  by (simp add: init_tracker_def load_history_def)

text \<open>
  C9. When a snapshot is captured into an empty history (the fingerprint of the document
  being computed), exactly that entry is appended; its change set is the initial tag,
  which is not the change set of six empty lists; its drift score is 0, and the severity
  tier of that score is NO_CHANGE.
\<close>

theorem first_snapshot_is_initial:
  assumes "history self = []"
    and "calculate_architecture_hash current_arch = Inr h"
  shows "\<exists>snap self'.
           capture_snapshot now stamp (Parsed current_arch) self = Inr (Some snap, self')
           \<and> history self' = [snap]
           \<and> snap_changes snap = Initial_snapshot
           \<and> snap_changes snap \<noteq>
                Changes \<lparr>services_added = [], services_removed = [],
                         dependencies_added = [], dependencies_removed = [],
                         endpoints_added = [], endpoints_removed = []\<rparr>
           \<and> snap_drift_score snap = 0
           \<and> severity_of (snap_drift_score snap) = NO_CHANGE"
  using assms by (simp add: capture_snapshot_def save_history_def severity_of_def Let_def)

theorem first_snapshot_is_initial_witness:
  "\<exists>snap self'.
     capture_snapshot ''2025-01-01T00:00:05'' ''20250101_000005'' (Parsed single_service)
       (snd (init_tracker Absent Map.empty)) = Inr (Some snap, self')
     \<and> history self' = [snap]
     \<and> snap_changes snap = Initial_snapshot
     \<and> snap_drift_score snap = 0
     \<and> severity_of (snap_drift_score snap) = NO_CHANGE"
proof -
  have h: "history (snd (init_tracker Absent Map.empty)) = []"
    by (simp add: init_tracker_def load_history_def)
  from first_snapshot_is_initial [OF h single_service_hash] show ?thesis by blast
qed

text \<open>
  C8. When the fingerprint of the new snapshot equals the hash stored in the most recent
  history entry, capture is a no-op: it returns nothing and the tracker, that is the
  history list, the persisted history file and the snapshot files, is unchanged. When
  there is no entry or the fingerprints differ, exactly one entry is appended after the
  unchanged prior entries, written to the history file and to one snapshot file.
\<close>

theorem capture_snapshot_noop_or_append:
  assumes "calculate_architecture_hash current_arch = Inr h"
  shows "(history self \<noteq> [] \<and> hash (last (history self)) = h \<longrightarrow>
            capture_snapshot now stamp (Parsed current_arch) self = Inr (None, self))
         \<and> (\<not> (history self \<noteq> [] \<and> hash (last (history self)) = h) \<longrightarrow>
              (\<exists>snap self'.
                 capture_snapshot now stamp (Parsed current_arch) self = Inr (Some snap, self')
                 \<and> hash snap = h
                 \<and> architecture snap = current_arch
                 \<and> history self' = history self @ [snap]
                 \<and> history_file self' = Parsed (history self @ [snap])
                 \<and> snapshot_files self'
                     = (snapshot_files self)(''snapshot_'' @ stamp @ ''.json'' \<mapsto> snap)))"
  using assms by (auto simp: capture_snapshot_def save_history_def Let_def)

theorem capture_snapshot_noop_or_append_witness:
  "capture_snapshot ''2025-01-02T00:00:00'' ''20250102_000000'' (Parsed single_service) example_tracker
     = Inr (None, example_tracker)
   \<and> (\<exists>snap self'.
         capture_snapshot ''2025-01-02T00:00:00'' ''20250102_000000'' (Parsed repeated_service)
           example_tracker = Inr (Some snap, self')
         \<and> history self' = [example_snapshot, snap]
         \<and> history_file self' = Parsed [example_snapshot, snap])"
proof -
  have same: "history example_tracker \<noteq> []
      \<and> hash (last (history example_tracker)) = ''ae2710b91d4ceca02344ac095e37d7b5''"
    by (simp add: example_tracker_def example_snapshot_def)
  have differs: "\<not> (history example_tracker \<noteq> []
      \<and> hash (last (history example_tracker)) = ''3d79b136d98299ab13a187320ea78d75'')"
    by (simp add: example_tracker_def example_snapshot_def)
  have hist: "history example_tracker = [example_snapshot]"
    by (simp add: example_tracker_def)
  from capture_snapshot_noop_or_append [OF single_service_hash] same
  have "capture_snapshot ''2025-01-02T00:00:00'' ''20250102_000000'' (Parsed single_service)
          example_tracker = Inr (None, example_tracker)"
    by blast
  moreover from capture_snapshot_noop_or_append [OF repeated_service_hash] differs
  have "\<exists>snap self'.
         capture_snapshot ''2025-01-02T00:00:00'' ''20250102_000000'' (Parsed repeated_service)
           example_tracker = Inr (Some snap, self')
         \<and> history self' = history example_tracker @ [snap]
         \<and> history_file self' = Parsed (history example_tracker @ [snap])"
    by blast
  ultimately show ?thesis by (simp add: hist)
qed


end
